theory Spec2Isabelle
  imports Main "HOL-Library.Word"
begin

section \<open>JavaScript strings\<close>

text \<open>
  A JavaScript string is a sequence of UTF-16 code units: \<open>.length\<close> counts code units,
  a regular expression without the \<open>u\<close> flag matches code units, and \<open>trim\<close> removes
  white space and line terminators, all of which are single code units.
\<close>

type_synonym jsstring = "16 word list"

definition lit :: "string \<Rightarrow> jsstring" where
  "lit cs = map (\<lambda>c. of_nat (of_char c)) cs"

text \<open>
  The code units \<open>String.prototype.trim\<close> strips: TAB, LF, VT, FF, CR, SPACE, NBSP,
  U+1680, U+2000 to U+200A, U+2028, U+2029, U+202F, U+205F, U+3000 and U+FEFF.
\<close>

definition is_ws :: "16 word \<Rightarrow> bool" where
  "is_ws c \<longleftrightarrow>
     c = 0x09 \<or> c = 0x0A \<or> c = 0x0B \<or> c = 0x0C \<or> c = 0x0D \<or> c = 0x20 \<or> c = 0xA0 \<or>
     c = 0x1680 \<or> (0x2000 \<le> c \<and> c \<le> 0x200A) \<or> c = 0x2028 \<or> c = 0x2029 \<or>
     c = 0x202F \<or> c = 0x205F \<or> c = 0x3000 \<or> c = 0xFEFF"

definition trim :: "jsstring \<Rightarrow> jsstring" where
  "trim s = rev (dropWhile is_ws (rev (dropWhile is_ws s)))"

text \<open>A string carries no leading and no trailing white space.\<close>

definition no_outer_ws :: "jsstring \<Rightarrow> bool" where
  "no_outer_ws s = (case s of [] \<Rightarrow> True | c # cs \<Rightarrow> \<not> is_ws c \<and> \<not> is_ws (last (c # cs)))"

text \<open>The character class \<open>[a-zA-Z0-9_-]\<close> and the pattern \<open>/^[a-zA-Z0-9_-]+$/\<close>.\<close>

definition id_char :: "16 word \<Rightarrow> bool" where
  "id_char c \<longleftrightarrow>
     (0x61 \<le> c \<and> c \<le> 0x7A) \<or> (0x41 \<le> c \<and> c \<le> 0x5A) \<or> (0x30 \<le> c \<and> c \<le> 0x39) \<or>
     c = 0x5F \<or> c = 0x2D"

definition agent_id_regex :: "jsstring \<Rightarrow> bool" where
  "agent_id_regex s \<longleftrightarrow> s \<noteq> [] \<and> list_all id_char s"

section \<open>The validation library\<close>

text \<open>
  \<open>agentSchema\<close> is built from the string checks of the zod library. A string schema is
  a list of checks that \<open>_parse\<close> runs in order on the current data: \<open>trim\<close> rewrites the
  data, every other check that fails adds an issue with its message, and the loop goes on
  to the next check. An optional schema accepts \<open>undefined\<close> without running anything.
\<close>

datatype check =
    Trim
  | Regex "jsstring \<Rightarrow> bool" jsstring
  | Min nat jsstring
  | Max nat jsstring

fun run_checks :: "check list \<Rightarrow> jsstring \<Rightarrow> jsstring \<times> jsstring list" where
  "run_checks [] d = (d, [])"
| "run_checks (Trim # cs) d = run_checks cs (trim d)"
| "run_checks (Regex p m # cs) d =
     (case run_checks cs d of (d', issues) \<Rightarrow> (d', (if p d then [] else [m]) @ issues))"
| "run_checks (Min n m # cs) d =
     (case run_checks cs d of (d', issues) \<Rightarrow> (d', (if length d < n then [m] else []) @ issues))"
| "run_checks (Max n m # cs) d =
     (case run_checks cs d of (d', issues) \<Rightarrow> (d', (if length d > n then [m] else []) @ issues))"

definition optional :: "check list \<Rightarrow> jsstring option \<Rightarrow> jsstring option \<times> jsstring list" where
  "optional cs v =
     (case v of
        None \<Rightarrow> (None, [])
      | Some d \<Rightarrow> (case run_checks cs d of (d', issues) \<Rightarrow> (Some d', issues)))"

section \<open>The agent schema\<close>

definition msg_name_required :: jsstring where
  "msg_name_required = lit ''Agent name is required''"

definition msg_name_max :: jsstring where
  "msg_name_max = lit ''Agent name must be less than 100 characters''"

definition msg_id_regex :: jsstring where
  "msg_id_regex = lit ''Agent ID can only contain letters, numbers, hyphens, and underscores''"

definition msg_id_min :: jsstring where
  "msg_id_min = lit ''Agent ID must be at least 3 characters''"

definition msg_id_max :: jsstring where
  "msg_id_max = lit ''Agent ID must be less than 100 characters''"

definition msg_bio_max :: jsstring where
  "msg_bio_max = lit ''Bio must be less than 1000 characters''"

definition msg_llm_max :: jsstring where
  "msg_llm_max = lit ''LLM model name must be less than 100 characters''"

definition name_schema :: "check list" where
  "name_schema = [Trim, Min 1 msg_name_required, Max 100 msg_name_max]"

definition agentId_schema :: "check list" where
  "agentId_schema = [Trim, Regex agent_id_regex msg_id_regex, Min 3 msg_id_min, Max 100 msg_id_max]"

definition bio_schema :: "check list" where
  "bio_schema = [Trim, Max 1000 msg_bio_max]"

definition llm_schema :: "check list" where
  "llm_schema = [Trim, Max 100 msg_llm_max]"

text \<open>The object handed to \<open>safeParse\<close>, and the data it returns on success.\<close>

record agent_input =
  in_name :: jsstring
  in_agentId :: jsstring
  in_bio :: "jsstring option"
  in_llm :: "jsstring option"

record agent_data =
  v_name :: jsstring
  v_agentId :: jsstring
  v_bio :: "jsstring option"
  v_llm :: "jsstring option"

datatype parse_result = Success agent_data | Failure "jsstring list"

text \<open>
  The object schema parses its keys in the order of the shape; the issues of all keys are
  collected in that order, and the parse succeeds when there is none.
\<close>

definition safeParse :: "agent_input \<Rightarrow> parse_result" where
  "safeParse i =
     (case run_checks name_schema (in_name i) of (n, e1) \<Rightarrow>
      case run_checks agentId_schema (in_agentId i) of (a, e2) \<Rightarrow>
      case optional bio_schema (in_bio i) of (b, e3) \<Rightarrow>
      case optional llm_schema (in_llm i) of (l, e4) \<Rightarrow>
        if e1 @ e2 @ e3 @ e4 = []
        then Success \<lparr>v_name = n, v_agentId = a, v_bio = b, v_llm = l\<rparr>
        else Failure (e1 @ e2 @ e3 @ e4))"

section \<open>Effects\<close>

datatype variant = Default | Destructive

record toast =
  title :: jsstring
  description :: jsstring
  variant :: variant

text \<open>The object written to the \<open>agents\<close> table by \<open>insert\<close> and \<open>update\<close>.\<close>

record payload =
  p_name :: jsstring
  p_agent_id :: jsstring
  p_bio :: "jsstring option"
  p_llm :: "jsstring option"

text \<open>
  Everything a handler sends out of the component, in the order it is sent: a toast, a
  query on the \<open>agents\<close> table (\<open>StoreSelect c a\<close> is
  \<open>select('*').order(c, {ascending: a})\<close>, \<open>StoreUpdate i p\<close> is
  \<open>update(p).eq('id', i)\<close>), a call of the browser (\<open>getUserMedia({audio: true})\<close>)
  or of the voice SDK (\<open>StartSession i\<close> is
  \<open>startSession({agentId: i, connectionType: 'webrtc'})\<close>). Console output is left out.
\<close>

datatype effect =
    Toast toast
  | StoreInsert payload
  | StoreUpdate jsstring payload
  | StoreDelete jsstring
  | StoreSelect jsstring bool
  | GetUserMedia
  | StartSession jsstring
  | EndSession

definition is_mutation :: "effect \<Rightarrow> bool" where
  "is_mutation e = (case e of StoreInsert _ \<Rightarrow> True | StoreUpdate _ _ \<Rightarrow> True
                    | StoreDelete _ \<Rightarrow> True | _ \<Rightarrow> False)"

definition is_toast :: "effect \<Rightarrow> bool" where
  "is_toast e = (case e of Toast _ \<Rightarrow> True | _ \<Rightarrow> False)"

section \<open>The page and its configuration panel\<close>

text \<open>An \<open>Agent\<close> of the client, and a row of the \<open>agents\<close> table as \<open>select('*')\<close> returns it.\<close>

record agent =
  a_id :: jsstring
  a_name :: jsstring
  a_agentId :: jsstring
  a_bio :: jsstring
  a_llm :: "jsstring option"

record row =
  r_id :: jsstring
  r_name :: jsstring
  r_agent_id :: jsstring
  r_bio :: "jsstring option"
  r_llm :: "jsstring option"
  r_created_at :: jsstring

text \<open>
  The state of \<open>AgentConfig\<close> (the four form fields and \<open>editingAgentId\<close>), the \<open>agents\<close>
  snapshot of \<open>Index\<close> that the panel receives, and the effects sent so far, oldest first.
\<close>

record ui =
  newAgentName :: jsstring
  newAgentId :: jsstring
  newAgentBio :: jsstring
  newAgentLlm :: jsstring
  editingAgentId :: "jsstring option"
  agents :: "agent list"
  effects :: "effect list"

definition emit :: "effect \<Rightarrow> ui \<Rightarrow> ui" where
  "emit e s = s\<lparr>effects := effects s @ [e]\<rparr>"

text \<open>\<open>x || undefined\<close> on a string, \<open>x || null\<close> and \<open>x || ""\<close> on an optional string.\<close>

definition or_undefined :: "jsstring \<Rightarrow> jsstring option" where
  "or_undefined x = (if x = [] then None else Some x)"

definition or_null :: "jsstring option \<Rightarrow> jsstring option" where
  "or_null x = (case x of None \<Rightarrow> None | Some v \<Rightarrow> if v = [] then None else Some v)"

definition or_empty :: "jsstring option \<Rightarrow> jsstring" where
  "or_empty x = (case x of None \<Rightarrow> [] | Some v \<Rightarrow> v)"

definition to_payload :: "agent_data \<Rightarrow> payload" where
  "to_payload v = \<lparr>p_name = v_name v, p_agent_id = v_agentId v,
                   p_bio = or_null (v_bio v), p_llm = or_null (v_llm v)\<rparr>"

text \<open>
  An async handler runs to its first \<open>await\<close> and later resumes with the value the awaited
  promise settled to. \<open>Done\<close> is a handler that returned without awaiting; \<open>Await p s\<close>
  is one suspended at an \<open>await\<close>, with what its continuation has captured.
\<close>

datatype ('p, 's) handler = Done 's | Await 'p 's

datatype pending = AwaitUpdate agent_data | AwaitInsert agent_data

text \<open>Both \<open>onRefresh\<close> of the panel and the mount effect of \<open>Index\<close> are \<open>loadAgents\<close>.\<close>

definition reload_query :: effect where
  "reload_query = StoreSelect (lit ''created_at'') True"

definition loadAgents_begin :: "ui \<Rightarrow> ui" where
  "loadAgents_begin s = emit reload_query s"

definition to_agent :: "row \<Rightarrow> agent" where
  "to_agent r = \<lparr>a_id = r_id r, a_name = r_name r, a_agentId = r_agent_id r,
                 a_bio = or_empty (r_bio r), a_llm = Some (or_empty (r_llm r))\<rparr>"

record select_response =
  data :: "row list option"
  error :: "jsstring option"

definition loadAgents_resume :: "select_response \<Rightarrow> ui \<Rightarrow> ui" where
  "loadAgents_resume resp s =
     (case error resp of
        Some m \<Rightarrow>
          emit (Toast \<lparr>title = lit ''Error loading agents'', description = m,
                       variant = Destructive\<rparr>) s
      | None \<Rightarrow>
          (case data resp of
             Some rows \<Rightarrow> s\<lparr>agents := map to_agent rows\<rparr>
           | None \<Rightarrow> s))"

definition loadAgents :: "select_response \<Rightarrow> ui \<Rightarrow> ui" where
  "loadAgents resp s = loadAgents_resume resp (loadAgents_begin s)"

definition form_input :: "ui \<Rightarrow> agent_input" where
  "form_input s = \<lparr>in_name = newAgentName s, in_agentId = newAgentId s,
                   in_bio = or_undefined (newAgentBio s), in_llm = or_undefined (newAgentLlm s)\<rparr>"

definition clear_form :: "ui \<Rightarrow> ui" where
  "clear_form s = s\<lparr>newAgentName := [], newAgentId := [], newAgentBio := [],
                    newAgentLlm := [], editingAgentId := None\<rparr>"

text \<open>
  \<open>addOrUpdateAgent\<close> up to its \<open>await\<close>. \<open>if (editingAgentId)\<close> is false for \<open>null\<close>
  and for the empty string. A failed parse always has an issue; reading \<open>errors[0].message\<close>
  of an empty list would throw before anything is sent.
\<close>

definition addOrUpdateAgent_begin :: "ui \<Rightarrow> (pending, ui) handler" where
  "addOrUpdateAgent_begin s =
     (case safeParse (form_input s) of
        Failure errs \<Rightarrow>
          (case errs of
             [] \<Rightarrow> Done s
           | m # _ \<Rightarrow>
               Done (emit (Toast \<lparr>title = lit ''Invalid Input'', description = m,
                                  variant = Destructive\<rparr>) s))
      | Success v \<Rightarrow>
          (case editingAgentId s of
             None \<Rightarrow> Await (AwaitInsert v) (emit (StoreInsert (to_payload v)) s)
           | Some i \<Rightarrow>
               if i \<noteq> []
               then Await (AwaitUpdate v) (emit (StoreUpdate i (to_payload v)) s)
               else Await (AwaitInsert v) (emit (StoreInsert (to_payload v)) s)))"

text \<open>The rest of \<open>addOrUpdateAgent\<close>, given the \<open>error\<close> of the store's response.\<close>

definition addOrUpdateAgent_resume :: "pending \<Rightarrow> jsstring option \<Rightarrow> ui \<Rightarrow> ui" where
  "addOrUpdateAgent_resume p err s =
     (case err of
        Some m \<Rightarrow>
          emit (Toast \<lparr>title = lit ''Error'', description = m, variant = Destructive\<rparr>) s
      | None \<Rightarrow>
          loadAgents_begin (clear_form (emit (Toast
            (case p of
               AwaitUpdate v \<Rightarrow>
                 \<lparr>title = lit ''Agent Updated'',
                  description = v_name v @ lit '' has been updated successfully'',
                  variant = Default\<rparr>
             | AwaitInsert v \<Rightarrow>
                 \<lparr>title = lit ''Agent Added'',
                  description = v_name v @ lit '' has been added successfully'',
                  variant = Default\<rparr>)) s)))"

definition addOrUpdateAgent :: "jsstring option \<Rightarrow> ui \<Rightarrow> ui" where
  "addOrUpdateAgent err s =
     (case addOrUpdateAgent_begin s of
        Done s' \<Rightarrow> s'
      | Await p s' \<Rightarrow> addOrUpdateAgent_resume p err s')"

definition editAgent :: "agent \<Rightarrow> ui \<Rightarrow> ui" where
  "editAgent a s = s\<lparr>newAgentName := a_name a, newAgentId := a_agentId a,
                     newAgentBio := a_bio a, newAgentLlm := or_empty (a_llm a),
                     editingAgentId := Some (a_id a)\<rparr>"

definition cancelEdit :: "ui \<Rightarrow> ui" where
  "cancelEdit s = clear_form s"

definition removeAgent_begin :: "jsstring \<Rightarrow> ui \<Rightarrow> ui" where
  "removeAgent_begin i s = emit (StoreDelete i) s"

definition removeAgent_resume :: "jsstring option \<Rightarrow> ui \<Rightarrow> ui" where
  "removeAgent_resume err s =
     (case err of
        Some m \<Rightarrow>
          emit (Toast \<lparr>title = lit ''Error'', description = m, variant = Destructive\<rparr>) s
      | None \<Rightarrow>
          loadAgents_begin (emit (Toast
            \<lparr>title = lit ''Agent Removed'',
             description = lit ''Agent has been removed from the list'',
             variant = Default\<rparr>) s))"

definition removeAgent :: "jsstring \<Rightarrow> jsstring option \<Rightarrow> ui \<Rightarrow> ui" where
  "removeAgent i err s = removeAgent_resume err (removeAgent_begin i s)"

text \<open>
  The submit button of the panel is rendered without a \<open>disabled\<close> attribute, whatever
  the state; so are the edit and delete buttons of each row.
\<close>

definition submit_disabled :: "ui \<Rightarrow> bool" where
  "submit_disabled s = False"

definition delete_disabled :: "ui \<Rightarrow> bool" where
  "delete_disabled s = False"

section \<open>The voice agent card\<close>

datatype status = Connected | Connecting | Disconnecting | Disconnected

text \<open>What the component reads of the object \<open>useConversation\<close> returns.\<close>

record conversation =
  status :: status
  isSpeaking :: bool

record voice_agent =
  agentId :: jsstring
  agentName :: jsstring
  isPermissionGranted :: bool
  isInitializing :: bool
  conversation :: conversation
  sent :: "effect list"

definition send :: "effect \<Rightarrow> voice_agent \<Rightarrow> voice_agent" where
  "send e s = s\<lparr>sent := sent s @ [e]\<rparr>"

text \<open>The callbacks handed to \<open>useConversation\<close>.\<close>

definition onConnect :: "voice_agent \<Rightarrow> voice_agent" where
  "onConnect s =
     send (Toast \<lparr>title = lit ''Connected'',
                  description = lit ''Now speaking with '' @ agentName s,
                  variant = Default\<rparr>) s"

definition onDisconnect :: "voice_agent \<Rightarrow> voice_agent" where
  "onDisconnect s = s"

definition onError :: "voice_agent \<Rightarrow> voice_agent" where
  "onError s =
     send (Toast \<lparr>title = lit ''Connection Error'',
                  description = lit ''Failed to connect to the agent. Please try again.'',
                  variant = Destructive\<rparr>) s"

definition onMessage :: "voice_agent \<Rightarrow> voice_agent" where
  "onMessage s = s"

text \<open>
  \<open>requestMicrophoneAccess\<close>. The \<open>try\<close> block evaluates
  \<open>navigator.mediaDevices.getUserMedia({audio: true})\<close> and awaits the promise. Where
  the browser offers no \<open>navigator.mediaDevices\<close> (a page that is not served from a
  secure origin) the call expression itself throws: no request is made, and the \<open>catch\<close>
  block runs at once. Otherwise the request is made and the handler awaits it; a
  rejection runs the same \<open>catch\<close> block. So a request ends in one of three ways:
  made and granted, made and denied, or not made at all.
\<close>

datatype microphone = Granted | Denied | Unavailable

definition microphone_refused :: "voice_agent \<Rightarrow> voice_agent" where
  "microphone_refused s =
     send (Toast \<lparr>title = lit ''Microphone Access Required'',
                  description = lit ''Please allow microphone access to use voice features'',
                  variant = Destructive\<rparr>) s"

definition requestMicrophoneAccess_begin :: "bool \<Rightarrow> voice_agent \<Rightarrow> (unit, voice_agent) handler" where
  "requestMicrophoneAccess_begin mediaDevices s =
     (if mediaDevices then Await () (send GetUserMedia s) else Done (microphone_refused s))"

definition requestMicrophoneAccess_resume :: "bool \<Rightarrow> voice_agent \<Rightarrow> voice_agent" where
  "requestMicrophoneAccess_resume granted s =
     (if granted
      then send (Toast \<lparr>title = lit ''Microphone Access Granted'',
                        description = lit ''You can now start a conversation'',
                        variant = Default\<rparr>) (s\<lparr>isPermissionGranted := True\<rparr>)
      else microphone_refused s)"

definition requestMicrophoneAccess :: "microphone \<Rightarrow> voice_agent \<Rightarrow> voice_agent" where
  "requestMicrophoneAccess mic s =
     (case requestMicrophoneAccess_begin (mic \<noteq> Unavailable) s of
        Done s' \<Rightarrow> s'
      | Await _ s' \<Rightarrow> requestMicrophoneAccess_resume (mic = Granted) s')"

text \<open>
  \<open>startConversation\<close> awaits one promise on each of its two paths: the permission
  request, after which it returns, or \<open>startSession\<close>, which resolves or rejects. When
  the permission request ended without a call of \<open>getUserMedia\<close> there is nothing left
  to wait for.
\<close>

datatype awaited = AwaitMicrophone | AwaitSession

definition startConversation_begin :: "bool \<Rightarrow> voice_agent \<Rightarrow> (awaited, voice_agent) handler" where
  "startConversation_begin mediaDevices s =
     (if \<not> isPermissionGranted s
      then (case requestMicrophoneAccess_begin mediaDevices s of
              Done s' \<Rightarrow> Done s'
            | Await _ s' \<Rightarrow> Await AwaitMicrophone s')
      else Await AwaitSession (send (StartSession (agentId s)) (s\<lparr>isInitializing := True\<rparr>)))"

definition startConversation_resume :: "awaited \<Rightarrow> bool \<Rightarrow> voice_agent \<Rightarrow> voice_agent" where
  "startConversation_resume w ok s =
     (case w of
        AwaitMicrophone \<Rightarrow> requestMicrophoneAccess_resume ok s
      | AwaitSession \<Rightarrow>
          (if ok then s
           else send (Toast \<lparr>title = lit ''Failed to Start'',
                             description = lit ''Could not connect to the agent'',
                             variant = Destructive\<rparr>) s)\<lparr>isInitializing := False\<rparr>)"

text \<open>
  The whole handler, given how the microphone request ends (read on the path without
  permission) and whether \<open>startSession\<close> resolves (read on the path with it).
\<close>

definition startConversation :: "microphone \<Rightarrow> bool \<Rightarrow> voice_agent \<Rightarrow> voice_agent" where
  "startConversation mic ok s =
     (case startConversation_begin (mic \<noteq> Unavailable) s of
        Done s' \<Rightarrow> s'
      | Await AwaitMicrophone s' \<Rightarrow> startConversation_resume AwaitMicrophone (mic = Granted) s'
      | Await AwaitSession s' \<Rightarrow> startConversation_resume AwaitSession ok s')"

text \<open>The state a handler has reached when it returns or suspends.\<close>

definition state_of :: "('p, 's) handler \<Rightarrow> 's" where
  "state_of h = (case h of Done s \<Rightarrow> s | Await _ s \<Rightarrow> s)"

definition stopConversation :: "voice_agent \<Rightarrow> voice_agent" where
  "stopConversation s = send EndSession s"

text \<open>
  The cleanup of the mount effect, for the \<open>conversation\<close> object \<open>c\<close> that its closure
  holds.
\<close>

definition cleanup :: "conversation \<Rightarrow> voice_agent \<Rightarrow> voice_agent" where
  "cleanup c s = (if status c = Connected then send EndSession s else s)"

definition isConnected :: "voice_agent \<Rightarrow> bool" where
  "isConnected s \<longleftrightarrow> status (conversation s) = Connected"

text \<open>
  The card renders the start button while not connected, \<open>disabled={isInitializing}\<close>,
  and the end button, never disabled, while connected.
\<close>

definition start_shown :: "voice_agent \<Rightarrow> bool" where
  "start_shown s \<longleftrightarrow> \<not> isConnected s"

definition start_disabled :: "voice_agent \<Rightarrow> bool" where
  "start_disabled s \<longleftrightarrow> isInitializing s"

section \<open>What the card reacts to\<close>

text \<open>
  A mounted card starts with both flags false and, no session having been started, with
  a conversation that is disconnected. Afterwards it reacts to clicks on the button it
  renders, to the settling of the promise a handler awaits, to the callbacks of the voice
  SDK, and to a new \<open>status\<close> or \<open>isSpeaking\<close> from the SDK's hook, which comes with a
  new render. A click on a button that is not rendered, or that is disabled, does
  nothing. Whether the browser offers \<open>navigator.mediaDevices\<close> is fixed for the page.
\<close>

definition mount :: "jsstring \<Rightarrow> jsstring \<Rightarrow> voice_agent" where
  "mount i n =
     \<lparr>agentId = i, agentName = n, isPermissionGranted = False, isInitializing = False,
      conversation = \<lparr>status = Disconnected, isSpeaking = False\<rparr>, sent = []\<rparr>"

text \<open>
  Unmounting runs the cleanup of the mount effect. The effect is created once, by the
  first render (its dependency list is empty), so the \<open>conversation\<close> its cleanup tests
  is the constant of that render: the object the card was mounted with, whatever the
  status of the session has become since.
\<close>

definition unmount :: "voice_agent \<Rightarrow> voice_agent" where
  "unmount s = cleanup (conversation (mount (agentId s) (agentName s))) s"

datatype va_event =
    ClickStart
  | MicrophoneSettled bool
  | SessionSettled bool
  | ClickEnd
  | SdkConnect
  | SdkDisconnect
  | SdkError
  | SdkMessage
  | SdkUpdate conversation

definition va_step :: "bool \<Rightarrow> va_event \<Rightarrow> voice_agent \<Rightarrow> voice_agent" where
  "va_step mediaDevices e s =
     (case e of
        ClickStart \<Rightarrow>
          if start_shown s \<and> \<not> start_disabled s
          then state_of (startConversation_begin mediaDevices s) else s
      | MicrophoneSettled granted \<Rightarrow> startConversation_resume AwaitMicrophone granted s
      | SessionSettled ok \<Rightarrow> startConversation_resume AwaitSession ok s
      | ClickEnd \<Rightarrow> if isConnected s then stopConversation s else s
      | SdkConnect \<Rightarrow> onConnect s
      | SdkDisconnect \<Rightarrow> onDisconnect s
      | SdkError \<Rightarrow> onError s
      | SdkMessage \<Rightarrow> onMessage s
      | SdkUpdate c \<Rightarrow> s\<lparr>conversation := c\<rparr>)"

fun va_run :: "bool \<Rightarrow> va_event list \<Rightarrow> voice_agent \<Rightarrow> voice_agent" where
  "va_run mediaDevices [] s = s"
| "va_run mediaDevices (e # es) s = va_run mediaDevices es (va_step mediaDevices e s)"

text \<open>
  \<open>Index\<close> renders one card per agent; each card has its own state. An event addressed
  to a card that is not there changes nothing.
\<close>

definition page_step ::
  "bool \<Rightarrow> nat \<times> va_event \<Rightarrow> voice_agent list \<Rightarrow> voice_agent list" where
  "page_step mediaDevices ie cards =
     (case ie of (i, e) \<Rightarrow>
        if i < length cards then cards[i := va_step mediaDevices e (cards ! i)] else cards)"

fun page_run ::
  "bool \<Rightarrow> (nat \<times> va_event) list \<Rightarrow> voice_agent list \<Rightarrow> voice_agent list" where
  "page_run mediaDevices [] cards = cards"
| "page_run mediaDevices (ie # ies) cards =
     page_run mediaDevices ies (page_step mediaDevices ie cards)"

text \<open>The state of a controller: its two flags and what it reads of the conversation.\<close>

definition control_state :: "voice_agent \<Rightarrow> bool \<times> bool \<times> conversation" where
  "control_state s = (isPermissionGranted s, isInitializing s, conversation s)"

text \<open>The number of toasts with a given title among some effects.\<close>

definition titled :: "string \<Rightarrow> effect list \<Rightarrow> nat" where
  "titled t es =
     length (filter (\<lambda>e. case e of Toast x \<Rightarrow> title x = lit t | _ \<Rightarrow> False) es)"

definition toasts :: "effect list \<Rightarrow> nat" where
  "toasts es = length (filter is_toast es)"

section \<open>Toasts of the panel and the form as a whole\<close>

definition error_toast :: "jsstring \<Rightarrow> effect" where
  "error_toast m = Toast \<lparr>title = lit ''Error'', description = m, variant = Destructive\<rparr>"

definition success_toast :: "pending \<Rightarrow> effect" where
  "success_toast p =
     (case p of
        AwaitUpdate v \<Rightarrow>
          Toast \<lparr>title = lit ''Agent Updated'',
                 description = v_name v @ lit '' has been updated successfully'',
                 variant = Default\<rparr>
      | AwaitInsert v \<Rightarrow>
          Toast \<lparr>title = lit ''Agent Added'',
                 description = v_name v @ lit '' has been added successfully'',
                 variant = Default\<rparr>)"

definition removed_toast :: effect where
  "removed_toast =
     Toast \<lparr>title = lit ''Agent Removed'',
            description = lit ''Agent has been removed from the list'',
            variant = Default\<rparr>"

definition failed_to_start_toast :: effect where
  "failed_to_start_toast =
     Toast \<lparr>title = lit ''Failed to Start'',
            description = lit ''Could not connect to the agent'',
            variant = Destructive\<rparr>"

definition microphone_toast :: "bool \<Rightarrow> effect" where
  "microphone_toast granted =
     (if granted
      then Toast \<lparr>title = lit ''Microphone Access Granted'',
                  description = lit ''You can now start a conversation'',
                  variant = Default\<rparr>
      else Toast \<lparr>title = lit ''Microphone Access Required'',
                  description = lit ''Please allow microphone access to use voice features'',
                  variant = Destructive\<rparr>)"

text \<open>The four form fields and the edit-mode flag.\<close>

definition form_of :: "ui \<Rightarrow> jsstring \<times> jsstring \<times> jsstring \<times> jsstring \<times> jsstring option" where
  "form_of s = (newAgentName s, newAgentId s, newAgentBio s, newAgentLlm s, editingAgentId s)"

section \<open>The constraints of the data model\<close>

text \<open>
  The constraints on submitted agent fields in the order the data model lists them, each
  with the message shown for it. They are read on the trimmed value of each field; the
  pattern of the external agent id needs at least one character, which is what makes
  the id required.
\<close>

definition constraints ::
  "jsstring \<Rightarrow> jsstring \<Rightarrow> jsstring \<Rightarrow> jsstring \<Rightarrow> (bool \<times> jsstring) list" where
  "constraints n a b l =
     [(1 \<le> length (trim n), msg_name_required),
      (length (trim n) \<le> 100, msg_name_max),
      (agent_id_regex (trim a), msg_id_regex),
      (3 \<le> length (trim a), msg_id_min),
      (length (trim a) \<le> 100, msg_id_max),
      (length (trim b) \<le> 1000, msg_bio_max),
      (length (trim l) \<le> 100, msg_llm_max)]"

text \<open>The messages of the violated constraints, first violation first.\<close>

definition violated :: "jsstring \<Rightarrow> jsstring \<Rightarrow> jsstring \<Rightarrow> jsstring \<Rightarrow> jsstring list" where
  "violated n a b l = map snd (filter (\<lambda>c. \<not> fst c) (constraints n a b l))"

definition form_violations :: "ui \<Rightarrow> jsstring list" where
  "form_violations s = violated (newAgentName s) (newAgentId s) (newAgentBio s) (newAgentLlm s)"

definition within_bounds :: "ui \<Rightarrow> bool" where
  "within_bounds s \<longleftrightarrow>
     1 \<le> length (trim (newAgentName s)) \<and> length (trim (newAgentName s)) \<le> 100 \<and>
     agent_id_regex (trim (newAgentId s)) \<and>
     3 \<le> length (trim (newAgentId s)) \<and> length (trim (newAgentId s)) \<le> 100 \<and>
     length (trim (newAgentBio s)) \<le> 1000 \<and> length (trim (newAgentLlm s)) \<le> 100"

text \<open>What a successful parse of the form returns.\<close>

definition validated :: "ui \<Rightarrow> agent_data" where
  "validated s =
     \<lparr>v_name = trim (newAgentName s), v_agentId = trim (newAgentId s),
      v_bio = (if newAgentBio s = [] then None else Some (trim (newAgentBio s))),
      v_llm = (if newAgentLlm s = [] then None else Some (trim (newAgentLlm s)))\<rparr>"

definition invalid_toast :: "jsstring \<Rightarrow> effect" where
  "invalid_toast m =
     Toast \<lparr>title = lit ''Invalid Input'', description = m, variant = Destructive\<rparr>"

text \<open>
  What is to be stored for a form: each field without its outer white space, and no
  value at all for a bio or a model label that is empty once trimmed.
\<close>

definition trimmed_fields :: "ui \<Rightarrow> payload" where
  "trimmed_fields s =
     \<lparr>p_name = trim (newAgentName s), p_agent_id = trim (newAgentId s),
      p_bio = (if trim (newAgentBio s) = [] then None else Some (trim (newAgentBio s))),
      p_llm = (if trim (newAgentLlm s) = [] then None else Some (trim (newAgentLlm s)))\<rparr>"

text \<open>The object a store call writes, and what it means for it to be trimmed.\<close>

definition written :: "effect \<Rightarrow> payload option" where
  "written e = (case e of StoreInsert p \<Rightarrow> Some p | StoreUpdate _ p \<Rightarrow> Some p | _ \<Rightarrow> None)"

definition opt_no_outer_ws :: "jsstring option \<Rightarrow> bool" where
  "opt_no_outer_ws x = (case x of None \<Rightarrow> True | Some v \<Rightarrow> no_outer_ws v)"

definition payload_trimmed :: "payload \<Rightarrow> bool" where
  "payload_trimmed p \<longleftrightarrow>
     no_outer_ws (p_name p) \<and> no_outer_ws (p_agent_id p) \<and>
     opt_no_outer_ws (p_bio p) \<and> opt_no_outer_ws (p_llm p)"

section \<open>Example states\<close>

text \<open>A form with a blank name and the id \<open>a!\<close>: three constraints are violated.\<close>

definition ex_blank_name :: ui where
  "ex_blank_name =
     \<lparr>newAgentName = lit ''  '', newAgentId = lit ''a!'', newAgentBio = [],
      newAgentLlm = [], editingAgentId = None, agents = [], effects = []\<rparr>"

text \<open>A valid form whose fields are padded with blanks, and what is parsed from it.\<close>

definition ex_padded :: ui where
  "ex_padded =
     \<lparr>newAgentName = lit '' Support '', newAgentId = lit '' agent_123 '',
      newAgentBio = lit ''Helps users '', newAgentLlm = lit '' GPT-4'',
      editingAgentId = None, agents = [], effects = []\<rparr>"

definition ex_padded_data :: agent_data where
  "ex_padded_data =
     \<lparr>v_name = lit ''Support'', v_agentId = lit ''agent_123'',
      v_bio = Some (lit ''Helps users''), v_llm = Some (lit ''GPT-4'')\<rparr>"

text \<open>The same form once the insert has been sent and its answer is awaited.\<close>

definition ex_pending :: ui where
  "ex_pending = emit (StoreInsert (to_payload ex_padded_data)) ex_padded"

text \<open>A registry entry, a message of the store, a card with permission, and a page of two cards.\<close>

definition ex_agent :: agent where
  "ex_agent =
     \<lparr>a_id = lit ''7'', a_name = lit ''Support'', a_agentId = lit ''agent_123'',
      a_bio = [], a_llm = None\<rparr>"

definition ex_denied :: jsstring where
  "ex_denied = lit ''new row violates row-level security policy''"

definition ex_card :: voice_agent where
  "ex_card = (mount (lit ''agent_123'') (lit ''Support''))\<lparr>isPermissionGranted := True\<rparr>"

definition ex_page :: "voice_agent list" where
  "ex_page =
     [mount (lit ''agent_123'') (lit ''Support''), mount (lit ''agent_456'') (lit ''Sales'')]"

definition ex_run :: "(nat \<times> va_event) list" where
  "ex_run = [(0, ClickStart), (0, MicrophoneSettled True), (0, ClickStart),
             (0, SessionSettled False), (0, SdkError)]"

definition ex_events :: "va_event list" where
  "ex_events = [ClickStart, SessionSettled False, SdkError, ClickEnd]"

text \<open>
  A card whose session has been started and is connected, and a card on which Start was
  clicked twice before the first of the two permission requests was granted.
\<close>

definition ex_connected :: voice_agent where
  "ex_connected =
     va_run True [ClickStart, SdkUpdate \<lparr>status = Connected, isSpeaking = False\<rparr>, SdkConnect,
                  SessionSettled True] ex_card"

definition ex_double :: voice_agent where
  "ex_double =
     va_run True [ClickStart, ClickStart, MicrophoneSettled True]
       (mount (lit ''agent_123'') (lit ''Support''))"

section \<open>Trimming and the schema\<close>

lemma last_dropWhile_nonempty:
  "dropWhile P xs \<noteq> [] \<Longrightarrow> last (dropWhile P xs) = last xs"
  by (induction xs) (auto split: if_splits)

lemma no_outer_ws_trim: "no_outer_ws (trim s)"
proof (cases "trim s")
  case Nil
  then show ?thesis by (simp add: no_outer_ws_def)
next
  case (Cons c cs)
  let ?t = "dropWhile is_ws s"
  let ?u = "dropWhile is_ws (rev ?t)"
  have u: "?u \<noteq> []" using Cons by (auto simp: trim_def)
  have t: "?t \<noteq> []"
  proof
    assume a: "?t = []"
    have "?u = []" unfolding a by simp
    with u show False by simp
  qed
  have "last (trim s) = hd ?u" using u by (simp add: trim_def last_rev)
  then have l: "\<not> is_ws (last (trim s))" using hd_dropWhile [OF u] by simp
  have "hd (trim s) = last ?u" using u by (simp add: trim_def hd_rev)
  also have "\<dots> = last (rev ?t)" using u by (rule last_dropWhile_nonempty)
  also have "\<dots> = hd ?t" using t by (simp add: last_rev)
  finally have h: "\<not> is_ws (hd (trim s))" using hd_dropWhile [OF t] by simp
  from h l Cons show ?thesis by (simp add: no_outer_ws_def)
qed

lemma trim_all_ws:
  assumes "list_all is_ws s"
  shows "trim s = []"
proof -
  have d: "dropWhile is_ws s = []" using assms by (simp add: list_all_iff)
  show ?thesis unfolding trim_def d by simp
qed

lemma run_name_schema:
  "run_checks name_schema n =
     (trim n, (if length (trim n) < 1 then [msg_name_required] else []) @
              (if length (trim n) > 100 then [msg_name_max] else []))"
  by (simp add: name_schema_def)

lemma run_agentId_schema:
  "run_checks agentId_schema a =
     (trim a, (if agent_id_regex (trim a) then [] else [msg_id_regex]) @
              (if length (trim a) < 3 then [msg_id_min] else []) @
              (if length (trim a) > 100 then [msg_id_max] else []))"
  by (simp add: agentId_schema_def)

lemma run_bio_schema:
  "optional bio_schema (or_undefined b) =
     (if b = [] then None else Some (trim b),
      if length (trim b) > 1000 then [msg_bio_max] else [])"
  by (simp add: bio_schema_def optional_def or_undefined_def trim_def)

lemma run_llm_schema:
  "optional llm_schema (or_undefined l) =
     (if l = [] then None else Some (trim l),
      if length (trim l) > 100 then [msg_llm_max] else [])"
  by (simp add: llm_schema_def optional_def or_undefined_def trim_def)

text \<open>The issues the library collects are the violated constraints, in the same order.\<close>

lemma safeParse_form:
  "safeParse (form_input s) =
     (if form_violations s = [] then Success (validated s)
      else Failure (form_violations s))"
  unfolding safeParse_def form_input_def form_violations_def
  by (simp add: run_name_schema run_agentId_schema run_bio_schema run_llm_schema
       violated_def constraints_def validated_def not_le not_less)

lemma within_bounds_iff: "within_bounds s \<longleftrightarrow> form_violations s = []"
  by (auto simp: within_bounds_def form_violations_def violated_def constraints_def)

lemma begin_invalid:
  "form_violations s = m # ms \<Longrightarrow> addOrUpdateAgent_begin s = Done (emit (invalid_toast m) s)"
  by (simp add: addOrUpdateAgent_begin_def safeParse_form invalid_toast_def)

lemma begin_valid:
  "form_violations s = [] \<Longrightarrow>
   addOrUpdateAgent_begin s =
     (case editingAgentId s of
        None \<Rightarrow> Await (AwaitInsert (validated s)) (emit (StoreInsert (to_payload (validated s))) s)
      | Some i \<Rightarrow>
          if i \<noteq> []
          then Await (AwaitUpdate (validated s)) (emit (StoreUpdate i (to_payload (validated s))) s)
          else Await (AwaitInsert (validated s)) (emit (StoreInsert (to_payload (validated s))) s))"
  by (simp add: addOrUpdateAgent_begin_def safeParse_form)

lemma begin_Await_valid:
  assumes "addOrUpdateAgent_begin s = Await p s'"
  shows "form_violations s = []"
proof (cases "form_violations s")
  case Nil
  then show ?thesis .
next
  case (Cons m ms)
  with assms begin_invalid [OF Cons] show ?thesis by simp
qed

lemma trim_Nil: "trim [] = []"
  by (simp add: trim_def)

lemma to_payload_validated: "to_payload (validated s) = trimmed_fields s"
  by (simp add: to_payload_def validated_def or_null_def trimmed_fields_def trim_Nil)

lemma payload_trimmed_fields: "payload_trimmed (trimmed_fields s)"
  by (simp add: payload_trimmed_def trimmed_fields_def opt_no_outer_ws_def no_outer_ws_trim)

lemma begin_Await_payload:
  assumes "addOrUpdateAgent_begin s = Await p s'"
  shows "\<exists>e. s' = emit e s \<and> is_mutation e \<and> written e = Some (trimmed_fields s)"
  using assms begin_valid [OF begin_Await_valid [OF assms]]
  by (auto simp: written_def is_mutation_def to_payload_validated
      split: option.splits if_splits)

lemma ex_blank_violations:
  "form_violations ex_blank_name = [msg_name_required, msg_id_regex, msg_id_min]"
  by (simp add: form_violations_def ex_blank_name_def violated_def constraints_def lit_def
      trim_def is_ws_def agent_id_regex_def id_char_def)

lemma ex_blank_ws: "list_all is_ws (newAgentName ex_blank_name)"
  by (simp add: ex_blank_name_def lit_def is_ws_def)

lemma ex_padded_bounds: "within_bounds ex_padded"
  by (simp add: within_bounds_def ex_padded_def lit_def trim_def is_ws_def
      agent_id_regex_def id_char_def)

lemma ex_padded_validated: "validated ex_padded = ex_padded_data"
  by (simp add: validated_def ex_padded_def ex_padded_data_def lit_def trim_def is_ws_def)

lemma ex_padded_begin:
  "addOrUpdateAgent_begin ex_padded =
     Await (AwaitInsert ex_padded_data) (emit (StoreInsert (to_payload ex_padded_data)) ex_padded)"
proof -
  have v: "form_violations ex_padded = []"
    using ex_padded_bounds by (simp add: within_bounds_iff)
  have e: "editingAgentId ex_padded = None"
    by (simp add: ex_padded_def)
  show ?thesis
    using begin_valid [OF v] by (simp add: e ex_padded_validated)
qed

section \<open>Validation before any store call\<close>

text \<open>
  Claim C1. When the submitted fields violate a constraint of the data model,
  \<open>addOrUpdateAgent\<close> returns without awaiting anything: the only effect it adds is one
  toast, whose description is the message of the first violated constraint, and no
  insert, update or reload is sent, whatever the store would have answered.
\<close>

theorem addOrUpdateAgent_rejects_first_violation:
  assumes "form_violations s = m # ms"
  shows "addOrUpdateAgent_begin s = Done (emit (invalid_toast m) s) \<and>
         addOrUpdateAgent err s = emit (invalid_toast m) s \<and>
         effects (addOrUpdateAgent err s) = effects s @ [invalid_toast m]"
  using begin_invalid [OF assms] by (simp add: addOrUpdateAgent_def emit_def)

theorem addOrUpdateAgent_rejects_first_violation_witness:
  "form_violations ex_blank_name = [msg_name_required, msg_id_regex, msg_id_min] \<and>
   addOrUpdateAgent_begin ex_blank_name =
     Done (emit (invalid_toast msg_name_required) ex_blank_name) \<and>
   effects (addOrUpdateAgent None ex_blank_name) = [invalid_toast msg_name_required]"
  using addOrUpdateAgent_rejects_first_violation [OF ex_blank_violations, of None]
    ex_blank_violations
  by (simp add: ex_blank_name_def emit_def)

text \<open>
  Claim C8. Every field is trimmed before it is checked and before it is stored. A name
  of white space only is rejected with the message that the name is required. Fields
  whose trimmed values are within the bounds parse to those trimmed values and reach the
  store. Whenever the handler reaches the store, the one call it sends is an insert or
  an update that writes exactly the trimmed fields (an empty bio or label as null), and
  what it writes has no leading or trailing white space in any field.
\<close>

theorem addOrUpdateAgent_trims_fields:
  "(list_all is_ws (newAgentName s1) \<longrightarrow>
      addOrUpdateAgent_begin s1 = Done (emit (invalid_toast msg_name_required) s1)) \<and>
   (within_bounds s2 \<longrightarrow>
      safeParse (form_input s2) =
        Success \<lparr>v_name = trim (newAgentName s2), v_agentId = trim (newAgentId s2),
                 v_bio = (if newAgentBio s2 = [] then None else Some (trim (newAgentBio s2))),
                 v_llm = (if newAgentLlm s2 = [] then None else Some (trim (newAgentLlm s2)))\<rparr> \<and>
      (\<exists>q e. addOrUpdateAgent_begin s2 = Await q (emit e s2) \<and>
         written e = Some (trimmed_fields s2))) \<and>
   (addOrUpdateAgent_begin s3 = Await p s3' \<longrightarrow>
      (\<exists>e. s3' = emit e s3 \<and> effects s3' = effects s3 @ [e] \<and> is_mutation e \<and>
         written e = Some (trimmed_fields s3))) \<and>
   payload_trimmed (trimmed_fields s4) \<and>
   no_outer_ws (p_name (trimmed_fields s4)) \<and> no_outer_ws (p_agent_id (trimmed_fields s4)) \<and>
   p_bio (trimmed_fields s4) \<noteq> Some [] \<and> p_llm (trimmed_fields s4) \<noteq> Some []"
proof (intro conjI impI)
  assume "list_all is_ws (newAgentName s1)"
  then have "trim (newAgentName s1) = []" by (rule trim_all_ws)
  then have "\<exists>ms. form_violations s1 = msg_name_required # ms"
    by (simp add: form_violations_def violated_def constraints_def)
  then show "addOrUpdateAgent_begin s1 = Done (emit (invalid_toast msg_name_required) s1)"
    using begin_invalid by blast
next
  assume b: "within_bounds s2"
  then show "safeParse (form_input s2) =
        Success \<lparr>v_name = trim (newAgentName s2), v_agentId = trim (newAgentId s2),
                 v_bio = (if newAgentBio s2 = [] then None else Some (trim (newAgentBio s2))),
                 v_llm = (if newAgentLlm s2 = [] then None else Some (trim (newAgentLlm s2)))\<rparr>"
    by (simp add: safeParse_form within_bounds_iff validated_def)
  from b have v: "form_violations s2 = []" by (simp add: within_bounds_iff)
  show "\<exists>q e. addOrUpdateAgent_begin s2 = Await q (emit e s2) \<and>
         written e = Some (trimmed_fields s2)"
    using begin_valid [OF v]
    by (cases "editingAgentId s2") (auto simp: written_def to_payload_validated)
next
  assume a: "addOrUpdateAgent_begin s3 = Await p s3'"
  from begin_Await_payload [OF a]
  show "\<exists>e. s3' = emit e s3 \<and> effects s3' = effects s3 @ [e] \<and> is_mutation e \<and>
         written e = Some (trimmed_fields s3)"
    by (auto simp: emit_def)
next
  show "payload_trimmed (trimmed_fields s4)" by (rule payload_trimmed_fields)
  show "no_outer_ws (p_name (trimmed_fields s4))"
    by (simp add: trimmed_fields_def no_outer_ws_trim)
  show "no_outer_ws (p_agent_id (trimmed_fields s4))"
    by (simp add: trimmed_fields_def no_outer_ws_trim)
  show "p_bio (trimmed_fields s4) \<noteq> Some []" by (simp add: trimmed_fields_def)
  show "p_llm (trimmed_fields s4) \<noteq> Some []" by (simp add: trimmed_fields_def)
qed

theorem addOrUpdateAgent_trims_fields_witness:
  "list_all is_ws (newAgentName ex_blank_name) \<and>
   addOrUpdateAgent_begin ex_blank_name =
     Done (emit (invalid_toast msg_name_required) ex_blank_name) \<and>
   within_bounds ex_padded \<and>
   safeParse (form_input ex_padded) = Success ex_padded_data \<and>
   addOrUpdateAgent_begin ex_padded = Await (AwaitInsert ex_padded_data) ex_pending \<and>
   trimmed_fields ex_padded =
     \<lparr>p_name = lit ''Support'', p_agent_id = lit ''agent_123'',
      p_bio = Some (lit ''Helps users''), p_llm = Some (lit ''GPT-4'')\<rparr> \<and>
   (\<exists>e. ex_pending = emit e ex_padded \<and> is_mutation e \<and>
        written e = Some (trimmed_fields ex_padded))"
proof -
  have t: "trimmed_fields ex_padded =
     \<lparr>p_name = lit ''Support'', p_agent_id = lit ''agent_123'',
      p_bio = Some (lit ''Helps users''), p_llm = Some (lit ''GPT-4'')\<rparr>"
    using to_payload_validated [of ex_padded, symmetric]
    by (simp add: ex_padded_validated) (simp add: to_payload_def ex_padded_data_def or_null_def lit_def)
  have b: "addOrUpdateAgent_begin ex_padded = Await (AwaitInsert ex_padded_data) ex_pending"
    using ex_padded_begin by (simp add: ex_pending_def)
  have v: "safeParse (form_input ex_padded) = Success ex_padded_data"
    using ex_padded_bounds by (simp add: safeParse_form within_bounds_iff ex_padded_validated)
  from addOrUpdateAgent_trims_fields
         [of ex_blank_name ex_padded ex_padded "AwaitInsert ex_padded_data" ex_pending ex_padded]
    ex_blank_ws ex_padded_bounds b
  have "addOrUpdateAgent_begin ex_blank_name =
          Done (emit (invalid_toast msg_name_required) ex_blank_name) \<and>
        (\<exists>e. ex_pending = emit e ex_padded \<and> is_mutation e \<and>
           written e = Some (trimmed_fields ex_padded))"
    by blast
  with ex_blank_ws ex_padded_bounds b v t show ?thesis by blast
qed

section \<open>The panel: effects and frame of each handler\<close>

lemma form_of_emit [simp]: "form_of (emit e s) = form_of s"
  by (simp add: form_of_def emit_def)

lemma agents_emit [simp]: "agents (emit e s) = agents s"
  by (simp add: emit_def)

lemma effects_emit [simp]: "effects (emit e s) = effects s @ [e]"
  by (simp add: emit_def)

lemma resume_effects:
  "effects (addOrUpdateAgent_resume p err s) =
     effects s @
       (case err of None \<Rightarrow> [success_toast p, reload_query] | Some m \<Rightarrow> [error_toast m])"
  by (simp add: addOrUpdateAgent_resume_def emit_def loadAgents_begin_def clear_form_def
      success_toast_def error_toast_def split: option.splits pending.splits)

lemma resume_error: "addOrUpdateAgent_resume p (Some m) s = emit (error_toast m) s"
  by (simp add: addOrUpdateAgent_resume_def error_toast_def)

lemma resume_success_form:
  "form_of (addOrUpdateAgent_resume p None s) = ([], [], [], [], None)"
  by (simp add: addOrUpdateAgent_resume_def form_of_def loadAgents_begin_def emit_def
      clear_form_def)

lemma remove_resume_effects:
  "effects (removeAgent_resume err s) =
     effects s @
       (case err of None \<Rightarrow> [removed_toast, reload_query] | Some m \<Rightarrow> [error_toast m])"
  by (simp add: removeAgent_resume_def emit_def loadAgents_begin_def
      removed_toast_def error_toast_def split: option.splits)

lemma begin_Await_effects:
  assumes "addOrUpdateAgent_begin s = Await p s'"
  shows "\<exists>e. is_mutation e \<and> e \<noteq> reload_query \<and> effects s' = effects s @ [e]"
  using assms begin_valid [OF begin_Await_valid [OF assms]]
  by (auto simp: emit_def is_mutation_def reload_query_def split: option.splits if_splits)

lemma begin_Await_frame:
  assumes "addOrUpdateAgent_begin s = Await p s'"
  shows "form_of s' = form_of s \<and> agents s' = agents s"
  using assms begin_valid [OF begin_Await_valid [OF assms]]
  by (auto split: option.splits if_splits)

lemma removeAgent_frame:
  "form_of (removeAgent i err s) = form_of s \<and> agents (removeAgent i err s) = agents s"
  by (simp add: removeAgent_def removeAgent_resume_def removeAgent_begin_def
      loadAgents_begin_def form_of_def emit_def split: option.splits)

lemma removeAgent_effects:
  "effects (removeAgent i err s) =
     effects s @ StoreDelete i #
       (case err of None \<Rightarrow> [removed_toast, reload_query] | Some m \<Rightarrow> [error_toast m])"
  by (simp add: removeAgent_def remove_resume_effects removeAgent_begin_def
      split: option.splits)

lemma form_violations_cong:
  "form_of s = form_of t \<Longrightarrow> form_violations s = form_violations t"
  by (simp add: form_of_def form_violations_def)

lemma validated_cong: "form_of s = form_of t \<Longrightarrow> validated s = validated t"
  by (simp add: form_of_def validated_def)

lemma ex_pending_begin:
  "addOrUpdateAgent_begin ex_pending =
     Await (AwaitInsert ex_padded_data) (emit (StoreInsert (to_payload ex_padded_data)) ex_pending)"
proof -
  have f: "form_of ex_pending = form_of ex_padded" by (simp add: ex_pending_def)
  have v: "form_violations ex_pending = []"
    using ex_padded_bounds form_violations_cong [OF f] by (simp add: within_bounds_iff)
  have e: "editingAgentId ex_pending = None"
    by (simp add: ex_pending_def ex_padded_def emit_def)
  show ?thesis
    using begin_valid [OF v] by (simp add: e validated_cong [OF f] ex_padded_validated)
qed

lemma ex_agent_valid: "form_violations (editAgent ex_agent ex_blank_name) = []"
  by (simp add: form_violations_def editAgent_def ex_agent_def violated_def constraints_def
      lit_def trim_def is_ws_def agent_id_regex_def id_char_def or_empty_def)

section \<open>The card: effects of each handler\<close>

lemma sent_send [simp]: "sent (send e s) = sent s @ [e]"
  by (simp add: send_def)

lemma microphone_refused_eq: "microphone_refused s = send (microphone_toast False) s"
  by (simp add: microphone_refused_def microphone_toast_def)

lemma begin_without_permission:
  "\<not> isPermissionGranted s \<Longrightarrow>
   startConversation_begin md s =
     (if md then Await AwaitMicrophone (send GetUserMedia s)
      else Done (send (microphone_toast False) s))"
  by (simp add: startConversation_begin_def requestMicrophoneAccess_begin_def
      microphone_refused_eq)

lemma begin_with_permission:
  "isPermissionGranted s \<Longrightarrow>
   startConversation_begin md s =
     Await AwaitSession (send (StartSession (agentId s)) (s\<lparr>isInitializing := True\<rparr>))"
  by (simp add: startConversation_begin_def)

lemma resume_microphone:
  "startConversation_resume AwaitMicrophone granted s =
     (if granted then send (microphone_toast True) (s\<lparr>isPermissionGranted := True\<rparr>)
      else send (microphone_toast False) s)"
  by (simp add: startConversation_resume_def requestMicrophoneAccess_resume_def
      microphone_refused_eq microphone_toast_def)

lemma resume_session:
  "startConversation_resume AwaitSession ok s =
     (if ok then s else send failed_to_start_toast s)\<lparr>isInitializing := False\<rparr>"
  by (simp add: startConversation_resume_def failed_to_start_toast_def)

lemma startConversation_failed:
  "isPermissionGranted c \<Longrightarrow>
   startConversation mic False c =
     c\<lparr>isInitializing := False,
       sent := sent c @ [StartSession (agentId c), failed_to_start_toast]\<rparr>"
  by (simp add: startConversation_def begin_with_permission resume_session send_def)

lemma ex_card_granted: "isPermissionGranted ex_card"
  by (simp add: ex_card_def mount_def)

lemma titled_append [simp]: "titled t (xs @ ys) = titled t xs + titled t ys"
  by (simp add: titled_def)

lemma toasts_append [simp]: "toasts (xs @ ys) = toasts xs + toasts ys"
  by (simp add: toasts_def)

text \<open>A click on Start that is taken, and what one event adds to the effects of a card.\<close>

lemma step_sent:
  "sent (va_step md e s) = sent s @
     (case e of
        ClickStart \<Rightarrow>
          if start_shown s \<and> \<not> start_disabled s
          then [if isPermissionGranted s then StartSession (agentId s)
                else if md then GetUserMedia else microphone_toast False]
          else []
      | MicrophoneSettled g \<Rightarrow> [microphone_toast g]
      | SessionSettled ok \<Rightarrow> if ok then [] else [failed_to_start_toast]
      | ClickEnd \<Rightarrow> if isConnected s then [EndSession] else []
      | SdkConnect \<Rightarrow>
          [Toast \<lparr>title = lit ''Connected'',
                  description = lit ''Now speaking with '' @ agentName s,
                  variant = Default\<rparr>]
      | SdkError \<Rightarrow>
          [Toast \<lparr>title = lit ''Connection Error'',
                  description = lit ''Failed to connect to the agent. Please try again.'',
                  variant = Destructive\<rparr>]
      | _ \<Rightarrow> [])"
proof (cases e)
  case ClickStart
  then show ?thesis
    by (cases "isPermissionGranted s")
      (simp_all add: va_step_def state_of_def begin_without_permission begin_with_permission)
next
  case (MicrophoneSettled g)
  then show ?thesis by (simp add: va_step_def resume_microphone)
next
  case (SessionSettled ok)
  then show ?thesis by (simp add: va_step_def resume_session)
qed (simp_all add: va_step_def stopConversation_def onConnect_def onDisconnect_def
       onError_def onMessage_def)

lemma lit_neq:
  "lit ''Connected'' \<noteq> lit ''Connection Error''"
  "lit ''Connected'' \<noteq> lit ''Microphone Access Granted''"
  "lit ''Connected'' \<noteq> lit ''Microphone Access Required''"
  "lit ''Connected'' \<noteq> lit ''Failed to Start''"
  "lit ''Connection Error'' \<noteq> lit ''Microphone Access Granted''"
  "lit ''Connection Error'' \<noteq> lit ''Microphone Access Required''"
  "lit ''Connection Error'' \<noteq> lit ''Failed to Start''"
  "lit ''Microphone Access Granted'' \<noteq> lit ''Microphone Access Required''"
  "lit ''Microphone Access Granted'' \<noteq> lit ''Failed to Start''"
  "lit ''Microphone Access Required'' \<noteq> lit ''Failed to Start''"
  by (simp_all add: lit_def)

lemmas lit_neq_both = lit_neq lit_neq [symmetric]

lemma step_connected:
  "titled ''Connected'' (sent (va_step md e s)) =
     titled ''Connected'' (sent s) + (if e = SdkConnect then 1 else 0)"
  by (cases e)
    (simp_all add: step_sent titled_def microphone_toast_def failed_to_start_toast_def
      lit_neq_both)

lemma step_error:
  "titled ''Connection Error'' (sent (va_step md e s)) =
     titled ''Connection Error'' (sent s) + (if e = SdkError then 1 else 0)"
  by (cases e)
    (simp_all add: step_sent titled_def microphone_toast_def failed_to_start_toast_def
      lit_neq_both)

lemma step_granted:
  "titled ''Microphone Access Granted'' (sent (va_step md e s)) =
     titled ''Microphone Access Granted'' (sent s) +
       (if e = MicrophoneSettled True then 1 else 0)"
  by (cases e)
    (simp_all add: step_sent titled_def microphone_toast_def failed_to_start_toast_def
      lit_neq_both)

lemma step_failed:
  "titled ''Failed to Start'' (sent (va_step md e s)) =
     titled ''Failed to Start'' (sent s) + (if e = SessionSettled False then 1 else 0)"
  by (cases e)
    (simp_all add: step_sent titled_def microphone_toast_def failed_to_start_toast_def
      lit_neq_both)

lemma step_required:
  "titled ''Microphone Access Required'' (sent (va_step md e s)) =
     titled ''Microphone Access Required'' (sent s) +
       (if e = MicrophoneSettled False \<or>
           (e = ClickStart \<and> \<not> md \<and> start_shown s \<and> \<not> start_disabled s \<and>
            \<not> isPermissionGranted s)
        then 1 else 0)"
  by (cases e)
    (simp_all add: step_sent titled_def microphone_toast_def failed_to_start_toast_def
      lit_neq_both)

lemma step_toasts:
  "toasts (sent (va_step md e s)) =
     toasts (sent s) +
       (if e \<in> {SdkConnect, SdkError, MicrophoneSettled True, MicrophoneSettled False,
                 SessionSettled False} \<or>
           (e = ClickStart \<and> \<not> md \<and> start_shown s \<and> \<not> start_disabled s \<and>
            \<not> isPermissionGranted s)
        then 1 else 0)"
  by (cases e)
    (auto simp: step_sent toasts_def is_toast_def microphone_toast_def failed_to_start_toast_def)

lemma run_connected:
  "titled ''Connected'' (sent (va_run md es s)) =
     titled ''Connected'' (sent s) + count_list es SdkConnect"
  by (induction es arbitrary: s) (simp_all add: step_connected)

lemma run_error:
  "titled ''Connection Error'' (sent (va_run md es s)) =
     titled ''Connection Error'' (sent s) + count_list es SdkError"
  by (induction es arbitrary: s) (simp_all add: step_error)

lemma run_granted:
  "titled ''Microphone Access Granted'' (sent (va_run md es s)) =
     titled ''Microphone Access Granted'' (sent s) + count_list es (MicrophoneSettled True)"
  by (induction es arbitrary: s) (simp_all add: step_granted)

lemma run_failed:
  "titled ''Failed to Start'' (sent (va_run md es s)) =
     titled ''Failed to Start'' (sent s) + count_list es (SessionSettled False)"
  by (induction es arbitrary: s) (simp_all add: step_failed)

lemma run_required:
  "titled ''Microphone Access Required'' (sent (va_run True es s)) =
     titled ''Microphone Access Required'' (sent s) + count_list es (MicrophoneSettled False)"
  by (induction es arbitrary: s) (simp_all add: step_required)

lemma run_toasts:
  "toasts (sent (va_run True es s)) =
     toasts (sent s) + count_list es SdkConnect + count_list es SdkError +
     count_list es (MicrophoneSettled True) + count_list es (MicrophoneSettled False) +
     count_list es (SessionSettled False)"
  by (induction es arbitrary: s) (auto simp: step_toasts)

lemma step_keeps_permission:
  "isPermissionGranted s \<Longrightarrow> isPermissionGranted (va_step md e s)"
  by (cases e)
    (simp_all add: va_step_def state_of_def begin_with_permission resume_microphone
      resume_session send_def stopConversation_def onConnect_def onDisconnect_def
      onError_def onMessage_def)

lemma run_keeps_permission:
  "isPermissionGranted s \<Longrightarrow> isPermissionGranted (va_run md es s)"
  by (induction es arbitrary: s) (simp_all add: step_keeps_permission)

lemma page_step_other: "fst ie \<noteq> j \<Longrightarrow> page_step md ie cards ! j = cards ! j"
  by (cases ie) (simp add: page_step_def)

lemma page_run_other:
  "\<forall>ie \<in> set ies. fst ie \<noteq> j \<Longrightarrow> page_run md ies cards ! j = cards ! j"
  by (induction ies arbitrary: cards) (simp_all add: page_step_other)

lemma ex_connected_eq:
  "ex_connected =
     ex_card\<lparr>conversation := \<lparr>status = Connected, isSpeaking = False\<rparr>,
             sent := [StartSession (lit ''agent_123''),
                      Toast \<lparr>title = lit ''Connected'',
                             description = lit ''Now speaking with '' @ lit ''Support'',
                             variant = Default\<rparr>]\<rparr>"
  by (simp add: ex_connected_def ex_card_def mount_def va_step_def state_of_def
      begin_with_permission resume_session start_shown_def start_disabled_def isConnected_def
      onConnect_def send_def)

lemma ex_double_eq:
  "ex_double =
     (mount (lit ''agent_123'') (lit ''Support''))
       \<lparr>isPermissionGranted := True,
        sent := [GetUserMedia, GetUserMedia, microphone_toast True]\<rparr>"
  by (simp add: ex_double_def mount_def va_step_def state_of_def begin_without_permission
      resume_microphone start_shown_def start_disabled_def isConnected_def send_def)

section \<open>Starting a session\<close>

text \<open>
  Claim C2. A click on Start while the microphone permission has not been granted never
  sets \<open>isInitializing\<close>, neither before nor after the permission request ends, and
  never calls \<open>startSession\<close>: the handler asks for the microphone (or, where the
  browser offers no \<open>mediaDevices\<close>, fails to), sends one toast and returns. Unless the
  request was granted the next click does the same again; if it was granted, it is the
  next click that sets \<open>isInitializing\<close> and calls \<open>startSession\<close>.
\<close>

theorem startConversation_without_permission:
  assumes "\<not> isPermissionGranted s"
  shows "startConversation_begin True s = Await AwaitMicrophone (send GetUserMedia s) \<and>
         startConversation_begin False s = Done (send (microphone_toast False) s) \<and>
         isInitializing (state_of (startConversation_begin md s)) = isInitializing s \<and>
         isInitializing (startConversation mic ok s) = isInitializing s \<and>
         sent (startConversation mic ok s) =
           sent s @ (case mic of
                       Granted \<Rightarrow> [GetUserMedia, microphone_toast True]
                     | Denied \<Rightarrow> [GetUserMedia, microphone_toast False]
                     | Unavailable \<Rightarrow> [microphone_toast False]) \<and>
         isPermissionGranted (startConversation mic ok s) = (mic = Granted) \<and>
         conversation (startConversation mic ok s) = conversation s \<and>
         (mic \<noteq> Granted \<longrightarrow>
            startConversation_begin True (startConversation mic ok s) =
              Await AwaitMicrophone (send GetUserMedia (startConversation mic ok s))) \<and>
         startConversation_begin md (startConversation Granted ok s) =
           Await AwaitSession
             (send (StartSession (agentId s))
                ((startConversation Granted ok s)\<lparr>isInitializing := True\<rparr>))"
proof -
  note b = begin_without_permission [OF assms]
  have r: "startConversation mic ok s =
     (case mic of
        Granted \<Rightarrow> send (microphone_toast True) ((send GetUserMedia s)\<lparr>isPermissionGranted := True\<rparr>)
      | Denied \<Rightarrow> send (microphone_toast False) (send GetUserMedia s)
      | Unavailable \<Rightarrow> send (microphone_toast False) s)" for mic
    by (cases mic) (simp_all add: startConversation_def b resume_microphone)
  have g: "isPermissionGranted (startConversation mic ok s) = (mic = Granted)" for mic
    using assms by (cases mic) (simp_all add: r send_def)
  have a: "agentId (startConversation Granted ok s) = agentId s"
    by (simp add: r send_def)
  show ?thesis
  proof (intro conjI impI)
    show "startConversation_begin True s = Await AwaitMicrophone (send GetUserMedia s)"
      by (simp add: b)
    show "startConversation_begin False s = Done (send (microphone_toast False) s)"
      by (simp add: b)
    show "isInitializing (state_of (startConversation_begin md s)) = isInitializing s"
      by (simp add: b state_of_def send_def)
    show "isInitializing (startConversation mic ok s) = isInitializing s"
      by (cases mic) (simp_all add: r send_def)
    show "sent (startConversation mic ok s) =
           sent s @ (case mic of
                       Granted \<Rightarrow> [GetUserMedia, microphone_toast True]
                     | Denied \<Rightarrow> [GetUserMedia, microphone_toast False]
                     | Unavailable \<Rightarrow> [microphone_toast False])"
      by (cases mic) (simp_all add: r send_def)
    show "isPermissionGranted (startConversation mic ok s) = (mic = Granted)"
      by (rule g)
    show "conversation (startConversation mic ok s) = conversation s"
      by (cases mic) (simp_all add: r send_def)
    show "startConversation_begin md (startConversation Granted ok s) =
           Await AwaitSession
             (send (StartSession (agentId s))
                ((startConversation Granted ok s)\<lparr>isInitializing := True\<rparr>))"
      using g [of Granted] by (simp add: begin_with_permission a)
  next
    assume "mic \<noteq> Granted"
    then have "\<not> isPermissionGranted (startConversation mic ok s)" by (simp add: g)
    then show "startConversation_begin True (startConversation mic ok s) =
              Await AwaitMicrophone (send GetUserMedia (startConversation mic ok s))"
      by (simp add: begin_without_permission)
  qed
qed

theorem startConversation_without_permission_witness:
  "\<not> isPermissionGranted (mount (lit ''agent_123'') (lit ''Support'')) \<and>
   \<not> isInitializing (startConversation Granted True (mount (lit ''agent_123'') (lit ''Support''))) \<and>
   sent (startConversation Granted True (mount (lit ''agent_123'') (lit ''Support''))) =
     [GetUserMedia, microphone_toast True] \<and>
   sent (startConversation Denied True (mount (lit ''agent_123'') (lit ''Support''))) =
     [GetUserMedia, microphone_toast False] \<and>
   sent (startConversation Unavailable True (mount (lit ''agent_123'') (lit ''Support''))) =
     [microphone_toast False] \<and>
   Denied \<noteq> Granted \<and>
   startConversation_begin True
       (startConversation Denied True (mount (lit ''agent_123'') (lit ''Support''))) =
     Await AwaitMicrophone
       (send GetUserMedia
          (startConversation Denied True (mount (lit ''agent_123'') (lit ''Support''))))"
proof -
  have n: "\<not> isPermissionGranted (mount (lit ''agent_123'') (lit ''Support''))"
    by (simp add: mount_def)
  show ?thesis
    using startConversation_without_permission [OF n, of True Granted True]
      startConversation_without_permission [OF n, of True Denied True]
      startConversation_without_permission [OF n, of True Unavailable True] n
    by (simp add: mount_def)
qed

section \<open>Unmounting\<close>

text \<open>
  Claim C3 is not what the code does. The cleanup tests the conversation object of the
  first render, which is disconnected, so unmounting sends nothing whatever the state of
  the card: a card that is connected when it is unmounted (here one whose session was
  started and connected) gets no call of \<open>endSession\<close> from the cleanup, where the
  claim asks for exactly one.
\<close>

theorem unmount_while_connected_sends_no_endSession:
  "unmount s = s \<and>
   isConnected ex_connected \<and>
   sent (unmount ex_connected) = sent ex_connected \<and>
   count_list (sent (unmount ex_connected)) EndSession = 0 \<and>
   count_list (sent (cleanup (conversation ex_connected) ex_connected)) EndSession = 1"
proof -
  have u: "unmount s = s" for s
    by (simp add: unmount_def cleanup_def mount_def)
  have c: "isConnected ex_connected"
    by (simp add: ex_connected_eq isConnected_def)
  have z: "count_list (sent ex_connected) EndSession = 0"
    by (simp add: ex_connected_eq)
  have o: "count_list (sent (cleanup (conversation ex_connected) ex_connected)) EndSession = 1"
    using c z by (simp add: cleanup_def isConnected_def)
  from u c z o show ?thesis by simp
qed

section \<open>Reloading the registry\<close>

text \<open>
  Claim C4. A submit that reaches the store sends exactly one mutation before it awaits,
  and no reload. When the store answers without error the handler sends a toast and
  then the reload query (all rows ordered by \<open>created_at\<close> ascending); when it answers
  with an error the handler sends the error toast and no reload. The same holds for a
  delete. A reload that returns rows replaces the whole snapshot with them.
\<close>

theorem reload_only_after_successful_mutation:
  "(addOrUpdateAgent_begin s = Await p s' \<longrightarrow>
      (\<exists>e. is_mutation e \<and> e \<noteq> reload_query \<and> effects s' = effects s @ [e]) \<and>
      effects (addOrUpdateAgent_resume p None s') = effects s' @ [success_toast p, reload_query] \<and>
      effects (addOrUpdateAgent_resume p (Some m) s') = effects s' @ [error_toast m]) \<and>
   effects (removeAgent_begin i u) = effects u @ [StoreDelete i] \<and>
   effects (removeAgent_resume None u') = effects u' @ [removed_toast, reload_query] \<and>
   effects (removeAgent_resume (Some m) u') = effects u' @ [error_toast m] \<and>
   reload_query = StoreSelect (lit ''created_at'') True \<and>
   loadAgents_resume \<lparr>data = Some rows, error = None\<rparr> t = t\<lparr>agents := map to_agent rows\<rparr>"
  using begin_Await_effects [of s p s']
  by (simp add: resume_effects remove_resume_effects removeAgent_begin_def emit_def
      reload_query_def loadAgents_resume_def)

theorem reload_only_after_successful_mutation_witness:
  "addOrUpdateAgent_begin ex_padded = Await (AwaitInsert ex_padded_data) ex_pending \<and>
   effects (addOrUpdateAgent_resume (AwaitInsert ex_padded_data) None ex_pending) =
     [StoreInsert (to_payload ex_padded_data), success_toast (AwaitInsert ex_padded_data),
      reload_query] \<and>
   effects (addOrUpdateAgent_resume (AwaitInsert ex_padded_data) (Some ex_denied) ex_pending) =
     [StoreInsert (to_payload ex_padded_data), error_toast ex_denied]"
  using reload_only_after_successful_mutation
          [of ex_padded "AwaitInsert ex_padded_data" ex_pending ex_denied]
    ex_padded_begin
  by (simp add: ex_pending_def emit_def ex_padded_def)

section \<open>Errors\<close>

text \<open>
  Claim C5. An error leaves the prior state. A rejected form keeps its four fields, the
  edit-mode flag and the registry snapshot, and sends no store call; a store error on
  submit or delete keeps them too, after exactly one store call and one error toast; the
  form is cleared when the store answered without error. A session start that fails ends
  with \<open>isInitializing\<close> false again, after exactly one call of \<open>startSession\<close> and one
  toast, and changes nothing else.
\<close>

theorem errors_leave_prior_state:
  "(form_violations s1 = m1 # ms \<longrightarrow>
      form_of (addOrUpdateAgent err s1) = form_of s1 \<and>
      agents (addOrUpdateAgent err s1) = agents s1 \<and>
      effects (addOrUpdateAgent err s1) = effects s1 @ [invalid_toast m1]) \<and>
   (addOrUpdateAgent_begin s2 = Await p s2' \<longrightarrow>
      form_of (addOrUpdateAgent (Some m) s2) = form_of s2 \<and>
      agents (addOrUpdateAgent (Some m) s2) = agents s2 \<and>
      (\<exists>e. is_mutation e \<and>
         effects (addOrUpdateAgent (Some m) s2) = effects s2 @ [e, error_toast m]) \<and>
      form_of (addOrUpdateAgent None s2) = ([], [], [], [], None)) \<and>
   form_of (removeAgent i (Some m) u) = form_of u \<and>
   agents (removeAgent i (Some m) u) = agents u \<and>
   effects (removeAgent i (Some m) u) = effects u @ [StoreDelete i, error_toast m] \<and>
   (isPermissionGranted c \<longrightarrow>
      isInitializing (state_of (startConversation_begin md c)) \<and>
      startConversation mic False c =
        c\<lparr>isInitializing := False,
          sent := sent c @ [StartSession (agentId c), failed_to_start_toast]\<rparr>)"
proof (intro conjI impI)
  assume a: "form_violations s1 = m1 # ms"
  note r = begin_invalid [OF a]
  show "form_of (addOrUpdateAgent err s1) = form_of s1"
    by (simp add: addOrUpdateAgent_def r)
  show "agents (addOrUpdateAgent err s1) = agents s1"
    by (simp add: addOrUpdateAgent_def r)
  show "effects (addOrUpdateAgent err s1) = effects s1 @ [invalid_toast m1]"
    by (simp add: addOrUpdateAgent_def r)
next
  assume a: "addOrUpdateAgent_begin s2 = Await p s2'"
  note f = begin_Await_frame [OF a]
  show "form_of (addOrUpdateAgent (Some m) s2) = form_of s2"
    by (simp add: addOrUpdateAgent_def a resume_error f)
  show "agents (addOrUpdateAgent (Some m) s2) = agents s2"
    by (simp add: addOrUpdateAgent_def a resume_error f)
  show "\<exists>e. is_mutation e \<and>
          effects (addOrUpdateAgent (Some m) s2) = effects s2 @ [e, error_toast m]"
    using begin_Await_effects [OF a] by (auto simp: addOrUpdateAgent_def a resume_error)
  show "form_of (addOrUpdateAgent None s2) = ([], [], [], [], None)"
    by (simp add: addOrUpdateAgent_def a resume_success_form)
next
  show "form_of (removeAgent i (Some m) u) = form_of u"
    by (simp add: removeAgent_frame)
  show "agents (removeAgent i (Some m) u) = agents u"
    by (simp add: removeAgent_frame)
  show "effects (removeAgent i (Some m) u) = effects u @ [StoreDelete i, error_toast m]"
    by (simp add: removeAgent_effects)
next
  assume g: "isPermissionGranted c"
  then show "isInitializing (state_of (startConversation_begin md c))"
    by (simp add: begin_with_permission state_of_def send_def)
  show "startConversation mic False c =
        c\<lparr>isInitializing := False,
          sent := sent c @ [StartSession (agentId c), failed_to_start_toast]\<rparr>"
    using g by (rule startConversation_failed)
qed

theorem errors_leave_prior_state_witness:
  "form_violations ex_blank_name = [msg_name_required, msg_id_regex, msg_id_min] \<and>
   form_of (addOrUpdateAgent None ex_blank_name) = form_of ex_blank_name \<and>
   addOrUpdateAgent_begin ex_padded = Await (AwaitInsert ex_padded_data) ex_pending \<and>
   form_of (addOrUpdateAgent (Some ex_denied) ex_padded) = form_of ex_padded \<and>
   agents (addOrUpdateAgent (Some ex_denied) ex_padded) = agents ex_padded \<and>
   form_of (addOrUpdateAgent None ex_padded) = ([], [], [], [], None) \<and>
   isPermissionGranted ex_card \<and>
   isInitializing (state_of (startConversation_begin True ex_card)) \<and>
   \<not> isInitializing (startConversation Granted False ex_card) \<and>
   sent (startConversation Granted False ex_card) =
     [StartSession (lit ''agent_123''), failed_to_start_toast]"
  using errors_leave_prior_state
          [of ex_blank_name msg_name_required "[msg_id_regex, msg_id_min]" None
              ex_padded "AwaitInsert ex_padded_data" ex_pending ex_denied
              "[]" ex_padded ex_card True Granted]
    ex_blank_violations ex_padded_begin ex_card_granted
  by (simp add: ex_pending_def ex_card_def mount_def)

section \<open>Notifications\<close>

text \<open>
  Claim C6, as the code has it. Every toast of a card is sent by one event and once per
  occurrence of that event: over any sequence of events there is one ``Connected'' per
  connect callback, one ``Connection Error'' per error callback, one ``Microphone Access
  Granted'' per granted request, one ``Failed to Start'' per rejected session start and,
  where the browser offers \<open>mediaDevices\<close>, one ``Microphone Access Required'' per
  denied request, and no toast besides these; where it does not, each click on Start
  that is taken without permission sends that toast itself. No event sends more than one
  toast, and a click that starts a session which is then rejected sends one toast in all.
  Nothing compares the state before and after: an event that occurs again sends its toast
  again.
\<close>

theorem one_toast_per_event:
  "titled ''Connected'' (sent (va_run md es s)) =
     titled ''Connected'' (sent s) + count_list es SdkConnect \<and>
   titled ''Connection Error'' (sent (va_run md es s)) =
     titled ''Connection Error'' (sent s) + count_list es SdkError \<and>
   titled ''Microphone Access Granted'' (sent (va_run md es s)) =
     titled ''Microphone Access Granted'' (sent s) + count_list es (MicrophoneSettled True) \<and>
   titled ''Failed to Start'' (sent (va_run md es s)) =
     titled ''Failed to Start'' (sent s) + count_list es (SessionSettled False) \<and>
   titled ''Microphone Access Required'' (sent (va_run True es s)) =
     titled ''Microphone Access Required'' (sent s) + count_list es (MicrophoneSettled False) \<and>
   toasts (sent (va_run True es s)) =
     toasts (sent s) + count_list es SdkConnect + count_list es SdkError +
     count_list es (MicrophoneSettled True) + count_list es (MicrophoneSettled False) +
     count_list es (SessionSettled False) \<and>
   titled ''Microphone Access Required'' (sent (va_step md e t)) =
     titled ''Microphone Access Required'' (sent t) +
       (if e = MicrophoneSettled False \<or>
           (e = ClickStart \<and> \<not> md \<and> start_shown t \<and> \<not> start_disabled t \<and>
            \<not> isPermissionGranted t)
        then 1 else 0) \<and>
   toasts (sent (va_step md e t)) \<le> toasts (sent t) + 1 \<and>
   (isPermissionGranted c \<longrightarrow>
      sent (startConversation mic False c) =
        sent c @ [StartSession (agentId c), failed_to_start_toast])"
proof -
  have "toasts (sent (va_step md e t)) \<le> toasts (sent t) + 1"
    by (simp add: step_toasts)
  then show ?thesis
    by (simp add: run_connected run_error run_granted run_required run_failed run_toasts
        step_required startConversation_failed)
qed

theorem one_toast_per_event_witness:
  "isPermissionGranted ex_card \<and>
   sent (startConversation Granted False ex_card) =
     [StartSession (lit ''agent_123''), failed_to_start_toast] \<and>
   toasts (sent (va_run True [ClickStart, SessionSettled False,
      SdkUpdate \<lparr>status = Disconnected, isSpeaking = False\<rparr>, SdkMessage] ex_card)) = 1 \<and>
   titled ''Microphone Access Required''
     (sent (va_step False ClickStart (mount (lit ''agent_123'') (lit ''Support'')))) = 1"
proof -
  have t: "toasts (sent ex_card) = 0" by (simp add: ex_card_def mount_def toasts_def)
  have m: "titled ''Microphone Access Required''
             (sent (mount (lit ''agent_123'') (lit ''Support''))) = 0"
    by (simp add: mount_def titled_def)
  have p: "start_shown (mount (lit ''agent_123'') (lit ''Support'')) \<and>
           \<not> start_disabled (mount (lit ''agent_123'') (lit ''Support'')) \<and>
           \<not> isPermissionGranted (mount (lit ''agent_123'') (lit ''Support''))"
    by (simp add: mount_def start_shown_def start_disabled_def isConnected_def)
  have a: "agentId ex_card = lit ''agent_123''" "sent ex_card = []"
    by (simp_all add: ex_card_def mount_def)
  show ?thesis
    using one_toast_per_event
            [of True "[ClickStart, SessionSettled False,
                  SdkUpdate \<lparr>status = Disconnected, isSpeaking = False\<rparr>, SdkMessage]"
                ex_card ClickStart "mount (lit ''agent_123'') (lit ''Support'')" ex_card Granted]
      one_toast_per_event
            [of False "[]" ex_card ClickStart "mount (lit ''agent_123'') (lit ''Support'')"
                ex_card Granted]
      ex_card_granted t m p
    by (simp add: a)
qed

text \<open>
  Claim C6 as stated fails. After two clicks on Start, made before the first permission
  request has settled, and one grant, the card has sent one ``Microphone Access Granted''
  toast. The grant of the second request leaves the state of the controller as it is and
  sends the toast a second time.
\<close>

theorem repeated_toast_in_same_state_counterexample:
  "sent ex_double = [GetUserMedia, GetUserMedia, microphone_toast True] \<and>
   titled ''Microphone Access Granted'' (sent ex_double) = 1 \<and>
   control_state (va_step True (MicrophoneSettled True) ex_double) = control_state ex_double \<and>
   sent (va_step True (MicrophoneSettled True) ex_double) =
     [GetUserMedia, GetUserMedia, microphone_toast True, microphone_toast True] \<and>
   titled ''Microphone Access Granted'' (sent (va_step True (MicrophoneSettled True) ex_double)) = 2"
  by (simp add: ex_double_eq va_step_def resume_microphone control_state_def send_def
      titled_def microphone_toast_def)

section \<open>Guarding of the controls\<close>

text \<open>
  Claim C7, as the code has it. While \<open>startConversation\<close> awaits \<open>startSession\<close> the
  start button is disabled and a click on it does nothing; it is enabled again when the
  promise has settled. A pending microphone request does not disable the start button,
  and the submit and delete buttons of the panel are never disabled.
\<close>

theorem start_guarded_panel_unguarded:
  "(isPermissionGranted s \<longrightarrow>
      start_disabled (state_of (startConversation_begin md s)) \<and>
      va_step md ClickStart (state_of (startConversation_begin md s)) =
        state_of (startConversation_begin md s) \<and>
      \<not> start_disabled
          (startConversation_resume AwaitSession ok
             (state_of (startConversation_begin md s)))) \<and>
   (\<not> isPermissionGranted s \<longrightarrow>
      start_disabled (state_of (startConversation_begin md s)) = isInitializing s) \<and>
   \<not> submit_disabled u \<and> \<not> delete_disabled u"
  by (simp add: begin_with_permission begin_without_permission resume_session state_of_def
      start_disabled_def va_step_def send_def submit_disabled_def delete_disabled_def)

theorem start_guarded_panel_unguarded_witness:
  "isPermissionGranted ex_card \<and>
   start_disabled (state_of (startConversation_begin True ex_card)) \<and>
   \<not> start_disabled
       (startConversation_resume AwaitSession True
          (state_of (startConversation_begin True ex_card))) \<and>
   \<not> isPermissionGranted (mount [] []) \<and>
   \<not> start_disabled (state_of (startConversation_begin True (mount [] []))) \<and>
   \<not> submit_disabled ex_pending"
proof -
  have n: "\<not> isPermissionGranted (mount [] [])" by (simp add: mount_def)
  show ?thesis
    using start_guarded_panel_unguarded [of ex_card True True ex_pending]
      start_guarded_panel_unguarded [of "mount [] []" True True ex_pending] ex_card_granted n
    by (simp add: mount_def)
qed

text \<open>
  Claim C7 as stated fails: after a first click on submit has sent its insert and is
  awaiting the answer, the submit button is not disabled, and a second click sends a
  second insert before the first has been answered.
\<close>

theorem submit_enabled_while_pending_counterexample:
  "addOrUpdateAgent_begin ex_padded = Await (AwaitInsert ex_padded_data) ex_pending \<and>
   \<not> submit_disabled ex_pending \<and>
   addOrUpdateAgent_begin ex_pending =
     Await (AwaitInsert ex_padded_data)
       (emit (StoreInsert (to_payload ex_padded_data)) ex_pending) \<and>
   effects (emit (StoreInsert (to_payload ex_padded_data)) ex_pending) =
     [StoreInsert (to_payload ex_padded_data), StoreInsert (to_payload ex_padded_data)]"
  using ex_padded_begin ex_pending_begin
  by (simp add: ex_pending_def submit_disabled_def emit_def ex_padded_def)

section \<open>Deleting while editing\<close>

text \<open>
  Claim C9. \<open>removeAgent\<close> changes neither the form fields nor \<open>editingAgentId\<close>,
  whether the delete succeeds or not. After a record has been loaded for editing and
  then deleted, the form still holds the record's values and its id, and a submit of that
  form (the id being a non-empty string and the values valid) sends an update addressed
  to the deleted id.
\<close>

theorem removeAgent_keeps_form:
  "form_of (removeAgent i err s) = form_of s \<and>
   form_of (removeAgent (a_id a) err (editAgent a s)) =
     (a_name a, a_agentId a, a_bio a, or_empty (a_llm a), Some (a_id a)) \<and>
   (a_id a \<noteq> [] \<and> form_violations (editAgent a s) = [] \<longrightarrow>
      (\<exists>v. addOrUpdateAgent_begin (removeAgent (a_id a) err (editAgent a s)) =
            Await (AwaitUpdate v)
              (emit (StoreUpdate (a_id a) (to_payload v))
                 (removeAgent (a_id a) err (editAgent a s)))))"
proof (intro conjI impI)
  show "form_of (removeAgent i err s) = form_of s"
    by (simp add: removeAgent_frame)
  show e: "form_of (removeAgent (a_id a) err (editAgent a s)) =
     (a_name a, a_agentId a, a_bio a, or_empty (a_llm a), Some (a_id a))"
    by (simp add: removeAgent_frame) (simp add: form_of_def editAgent_def)
  assume a: "a_id a \<noteq> [] \<and> form_violations (editAgent a s) = []"
  let ?t = "removeAgent (a_id a) err (editAgent a s)"
  have "form_of ?t = form_of (editAgent a s)" by (simp add: removeAgent_frame)
  then have v: "form_violations ?t = []" using a form_violations_cong by metis
  have i: "editingAgentId ?t = Some (a_id a)" using e by (simp add: form_of_def)
  show "\<exists>v. addOrUpdateAgent_begin ?t =
            Await (AwaitUpdate v) (emit (StoreUpdate (a_id a) (to_payload v)) ?t)"
    using begin_valid [OF v] a by (simp add: i)
qed

theorem removeAgent_keeps_form_witness:
  "a_id ex_agent \<noteq> [] \<and> form_violations (editAgent ex_agent ex_blank_name) = [] \<and>
   editingAgentId (removeAgent (a_id ex_agent) None (editAgent ex_agent ex_blank_name)) =
     Some (lit ''7'') \<and>
   (\<exists>v. addOrUpdateAgent_begin
          (removeAgent (a_id ex_agent) None (editAgent ex_agent ex_blank_name)) =
        Await (AwaitUpdate v)
          (emit (StoreUpdate (a_id ex_agent) (to_payload v))
             (removeAgent (a_id ex_agent) None (editAgent ex_agent ex_blank_name))))"
proof -
  have n: "a_id ex_agent \<noteq> []" by (simp add: ex_agent_def lit_def)
  show ?thesis
    using removeAgent_keeps_form [of "a_id ex_agent" None ex_blank_name ex_agent]
      n ex_agent_valid
    by (simp add: form_of_def) (simp add: ex_agent_def)
qed

section \<open>The microphone permission of a card\<close>

text \<open>
  Claim C10. A card is mounted without the permission flag, and a granted request sets
  it. Once set it stays set over every sequence of events of that card (clicks, settled
  promises, callbacks, status changes) and over the unmount cleanup, so the next start
  goes to \<open>startSession\<close>. Events of other cards leave a card as it is, so a card whose
  flag is not set still takes the microphone path on its own first click.
\<close>

theorem permission_is_kept_per_card:
  "\<not> isPermissionGranted (mount i n) \<and>
   isPermissionGranted (va_step md (MicrophoneSettled True) s0) \<and>
   (isPermissionGranted s \<longrightarrow>
      isPermissionGranted (va_run md es s) \<and>
      isPermissionGranted (cleanup c (va_run md es s)) \<and>
      isPermissionGranted (unmount (va_run md es s)) \<and>
      startConversation_begin md (va_run md es s) =
        Await AwaitSession
          (send (StartSession (agentId (va_run md es s)))
             ((va_run md es s)\<lparr>isInitializing := True\<rparr>))) \<and>
   ((\<forall>ie \<in> set ies. fst ie \<noteq> j) \<longrightarrow> page_run md ies cards ! j = cards ! j) \<and>
   ((\<forall>ie \<in> set ies. fst ie \<noteq> j) \<and> \<not> isPermissionGranted (cards ! j) \<longrightarrow>
      startConversation_begin md (page_run md ies cards ! j) =
        (if md then Await AwaitMicrophone (send GetUserMedia (cards ! j))
         else Done (send (microphone_toast False) (cards ! j))))"
proof (intro conjI impI)
  show "\<not> isPermissionGranted (mount i n)" by (simp add: mount_def)
  show "isPermissionGranted (va_step md (MicrophoneSettled True) s0)"
    by (simp add: va_step_def resume_microphone send_def)
next
  assume g: "isPermissionGranted s"
  then show r: "isPermissionGranted (va_run md es s)" by (rule run_keeps_permission)
  then show "isPermissionGranted (cleanup c (va_run md es s))"
    by (simp add: cleanup_def send_def)
  from r show "isPermissionGranted (unmount (va_run md es s))"
    by (simp add: unmount_def cleanup_def send_def)
  from r show "startConversation_begin md (va_run md es s) =
        Await AwaitSession
          (send (StartSession (agentId (va_run md es s)))
             ((va_run md es s)\<lparr>isInitializing := True\<rparr>))"
    by (rule begin_with_permission)
next
  assume "\<forall>ie \<in> set ies. fst ie \<noteq> j"
  then show "page_run md ies cards ! j = cards ! j" by (rule page_run_other)
next
  assume a: "(\<forall>ie \<in> set ies. fst ie \<noteq> j) \<and> \<not> isPermissionGranted (cards ! j)"
  then have "page_run md ies cards ! j = cards ! j" by (simp add: page_run_other)
  with a show "startConversation_begin md (page_run md ies cards ! j) =
        (if md then Await AwaitMicrophone (send GetUserMedia (cards ! j))
         else Done (send (microphone_toast False) (cards ! j)))"
    by (simp add: begin_without_permission)
qed

theorem permission_is_kept_per_card_witness:
  "isPermissionGranted ex_card \<and>
   isPermissionGranted (va_run True ex_events ex_card) \<and>
   startConversation_begin True (va_run True ex_events ex_card) =
     Await AwaitSession
       (send (StartSession (agentId (va_run True ex_events ex_card)))
          ((va_run True ex_events ex_card)\<lparr>isInitializing := True\<rparr>)) \<and>
   map fst ex_run = [0, 0, 0, 0, 0] \<and> \<not> isPermissionGranted (ex_page ! 1) \<and>
   isPermissionGranted (page_run True ex_run ex_page ! 0) \<and>
   startConversation_begin True (page_run True ex_run ex_page ! 1) =
     Await AwaitMicrophone (send GetUserMedia (ex_page ! 1))"
proof -
  have o: "\<forall>ie \<in> set ex_run. fst ie \<noteq> 1" by (simp add: ex_run_def)
  have m: "map fst ex_run = [0, 0, 0, 0, 0]" by (simp add: ex_run_def)
  have n: "\<not> isPermissionGranted (ex_page ! 1)" by (simp add: ex_page_def mount_def)
  have z: "isPermissionGranted (page_run True ex_run ex_page ! 0)"
    by (simp add: ex_run_def ex_page_def mount_def page_step_def va_step_def state_of_def
        begin_with_permission begin_without_permission resume_microphone resume_session
        send_def start_shown_def start_disabled_def isConnected_def onError_def)
  note c = permission_is_kept_per_card
            [of "[]" "[]" True ex_card ex_card ex_events "conversation ex_card" ex_run 1
                ex_page]
  from c ex_card_granted
  have a: "isPermissionGranted (va_run True ex_events ex_card) \<and>
           startConversation_begin True (va_run True ex_events ex_card) =
             Await AwaitSession
               (send (StartSession (agentId (va_run True ex_events ex_card)))
                  ((va_run True ex_events ex_card)\<lparr>isInitializing := True\<rparr>))"
    by blast
  from c o n
  have "startConversation_begin True (page_run True ex_run ex_page ! 1) =
          (if True then Await AwaitMicrophone (send GetUserMedia (ex_page ! 1))
           else Done (send (microphone_toast False) (ex_page ! 1)))"
    by blast
  then have b: "startConversation_begin True (page_run True ex_run ex_page ! 1) =
                  Await AwaitMicrophone (send GetUserMedia (ex_page ! 1))"
    by (simp only: if_True)
  from ex_card_granted a m n z b show ?thesis by blast
qed

end
